theory Spec2Isabelle
  imports Complex_Main
begin

section \<open>Data model\<close>

text \<open>
  The icon generator of \<^verbatim>\<open>scripts/generate_app_icon.py\<close> keeps a list of
  (mesh, layer number) pairs in \<^verbatim>\<open>self.meshes\<close>. A mesh is an array of vertices
  and an array of faces, each face three indices into the vertex array. Coordinates
  are 64-bit floats in the program; here they are real numbers, so the rounding of the
  arithmetic is outside the model. Where the program produces a non-finite number from
  finite ones the model says so explicitly: \<open>NonFinite\<close> for the division by a zero
  extent, \<open>None\<close> for the NaN that is the mean of no vertices.
\<close>

type_synonym vec3 = "real \<times> real \<times> real"

type_synonym face = "int \<times> int \<times> int"

record mesh =
  vertices :: "vec3 list"
  faces :: "face list"

type_synonym scene = "(mesh \<times> int) list"

text \<open>
  One polygon of the drawing: its 2D points and the fill colour. The program writes the
  colour as the string \<^verbatim>\<open>rgb(r,g,b)\<close>; the model keeps the three integers.
\<close>

record polygon =
  points :: "(real \<times> real) list"
  fill :: "int \<times> int \<times> int"

text \<open>
  \<open>IndexError\<close> and \<open>ValueError\<close> are the exceptions numpy raises on an index out of
  range and on the minimum of an empty array. \<open>NonFinite\<close> marks a float division by
  zero: numpy warns, yields an infinity or NaN and carries on; no real number
  corresponds to that outcome.
\<close>

datatype failure = IndexError | ValueError | NonFinite

definition vx :: "vec3 \<Rightarrow> real" where
  "vx v = fst v"

definition vy :: "vec3 \<Rightarrow> real" where
  "vy v = fst (snd v)"

definition vz :: "vec3 \<Rightarrow> real" where
  "vz v = snd (snd v)"

definition vsub :: "vec3 \<Rightarrow> vec3 \<Rightarrow> vec3" where
  "vsub a b = (vx a - vx b, vy a - vy b, vz a - vz b)"

definition vadd :: "vec3 \<Rightarrow> vec3 \<Rightarrow> vec3" where
  "vadd a b = (vx a + vx b, vy a + vy b, vz a + vz b)"

definition vscale :: "vec3 \<Rightarrow> real \<Rightarrow> vec3" where
  "vscale a s = (vx a * s, vy a * s, vz a * s)"

definition vdiv :: "vec3 \<Rightarrow> real \<Rightarrow> vec3" where
  "vdiv a s = (vx a / s, vy a / s, vz a / s)"

definition dot :: "vec3 \<Rightarrow> vec3 \<Rightarrow> real" where
  "dot a b = vx a * vx b + vy a * vy b + vz a * vz b"

definition cross :: "vec3 \<Rightarrow> vec3 \<Rightarrow> vec3" where
  "cross a b =
     (vy a * vz b - vz a * vy b,
      vz a * vx b - vx a * vz b,
      vx a * vy b - vy a * vx b)"

text \<open>\<^verbatim>\<open>np.linalg.norm\<close> of a vector: the square root of the sum of squares.\<close>

definition norm3 :: "vec3 \<Rightarrow> real" where
  "norm3 a = sqrt (dot a a)"

section \<open>Rotation (\<^verbatim>\<open>transform_meshes\<close>)\<close>

text \<open>
  The rotation is built with three functions of the trimesh library, modelled here on
  the 3x3 rotation block of its 4x4 homogeneous matrices (the translation column of a
  rotation about the origin is zero):
  \<^item> \<^verbatim>\<open>rotation_matrix(angle, direction)\<close> is
    \<open>cos a * I + (1 - cos a) * d d\<^sup>T + sin a * [d]\<^sub>x\<close> for the unit vector \<open>d\<close> of the
    direction;
  \<^item> \<^verbatim>\<open>concatenate_matrices(A, B)\<close> is the matrix product \<open>A B\<close>;
  \<^item> \<^verbatim>\<open>mesh.apply_transform(M)\<close> replaces every vertex \<open>v\<close> by \<open>M v\<close>.
  A matrix is the triple of its rows.
\<close>

type_synonym mat3 = "vec3 \<times> vec3 \<times> vec3"

definition radians :: "real \<Rightarrow> real" where
  "radians d = d * pi / 180"

definition unit_vector :: "vec3 \<Rightarrow> vec3" where
  "unit_vector d = vdiv d (sqrt (dot d d))"

definition rotation_matrix :: "real \<Rightarrow> vec3 \<Rightarrow> mat3" where
  "rotation_matrix angle direction =
     (let sina = sin angle; cosa = cos angle;
          d = unit_vector direction;
          k = 1 - cosa;
          e = vscale d sina
      in ((cosa + vx d * vx d * k, vx d * vy d * k - vz e, vx d * vz d * k + vy e),
          (vy d * vx d * k + vz e, cosa + vy d * vy d * k, vy d * vz d * k - vx e),
          (vz d * vx d * k - vy e, vz d * vy d * k + vx e, cosa + vz d * vz d * k)))"

definition mat_vec :: "mat3 \<Rightarrow> vec3 \<Rightarrow> vec3" where
  "mat_vec M v = (case M of (r0, r1, r2) \<Rightarrow> (dot r0 v, dot r1 v, dot r2 v))"

definition mat_col :: "mat3 \<Rightarrow> nat \<Rightarrow> vec3" where
  "mat_col M j = (case M of (r0, r1, r2) \<Rightarrow>
     (if j = 0 then (vx r0, vx r1, vx r2)
      else if j = 1 then (vy r0, vy r1, vy r2)
      else (vz r0, vz r1, vz r2)))"

definition concatenate_matrices :: "mat3 \<Rightarrow> mat3 \<Rightarrow> mat3" where
  "concatenate_matrices A B = (case A of (r0, r1, r2) \<Rightarrow>
     ((dot r0 (mat_col B 0), dot r0 (mat_col B 1), dot r0 (mat_col B 2)),
      (dot r1 (mat_col B 0), dot r1 (mat_col B 1), dot r1 (mat_col B 2)),
      (dot r2 (mat_col B 0), dot r2 (mat_col B 1), dot r2 (mat_col B 2))))"

definition apply_transform :: "mat3 \<Rightarrow> mesh \<Rightarrow> mesh" where
  "apply_transform M m = m\<lparr>vertices := map (mat_vec M) (vertices m)\<rparr>"

definition transform_meshes :: "real \<Rightarrow> real \<Rightarrow> scene \<Rightarrow> scene" where
  "transform_meshes tilt_forward tilt_left meshes =
     (let forward_rad = radians tilt_forward;
          left_rad = radians tilt_left;
          rx = rotation_matrix forward_rad (1, 0, 0);
          ry = rotation_matrix left_rad (0, 1, 0);
          transform = concatenate_matrices rx ry
      in map (\<lambda>(m, layer_num). (apply_transform transform m, layer_num)) meshes)"

section \<open>Bounding box and normalisation\<close>

definition all_vertices :: "scene \<Rightarrow> vec3 list" where
  "all_vertices meshes = concat (map (\<lambda>(m, layer_num). vertices m) meshes)"

text \<open>
  \<^verbatim>\<open>compute_bounds\<close>: the unit box when there is no mesh; otherwise the minimum and
  maximum per axis over the stacked vertices, which numpy refuses (\<open>ValueError\<close>) when
  the stacked array has no row.
\<close>

definition compute_bounds :: "scene \<Rightarrow> failure + (vec3 \<times> vec3)" where
  "compute_bounds meshes =
     (if meshes = [] then Inr ((0, 0, 0), (1, 1, 1))
      else let vs = all_vertices meshes in
        if vs = [] then Inl ValueError
        else Inr ((Min (set (map vx vs)), Min (set (map vy vs)), Min (set (map vz vs))),
                  (Max (set (map vx vs)), Max (set (map vy vs)), Max (set (map vz vs)))))"

definition planar_extent :: "vec3 \<times> vec3 \<Rightarrow> real" where
  "planar_extent b = (case b of (bounds_min, bounds_max) \<Rightarrow>
     (let size = vsub bounds_max bounds_min in max (vx size) (vy size)))"

definition normalize_vertex :: "int \<Rightarrow> vec3 \<Rightarrow> real \<Rightarrow> vec3 \<Rightarrow> vec3" where
  "normalize_vertex icon_size center scale v =
     (let w = vscale (vsub v center) scale
      in (vx w + real_of_int icon_size / 2, vy w + real_of_int icon_size / 2, vz w))"

text \<open>
  \<^verbatim>\<open>normalize_meshes\<close>. The division \<^verbatim>\<open>(self.icon_size * 0.8) / max_size\<close> has no
  guard: with \<open>max_size = 0\<close> numpy yields an infinity or NaN, and every vertex becomes
  non-finite.
\<close>

definition normalize_meshes :: "int \<Rightarrow> scene \<Rightarrow> failure + scene" where
  "normalize_meshes icon_size meshes =
     (case compute_bounds meshes of
        Inl e \<Rightarrow> Inl e
      | Inr (bounds_min, bounds_max) \<Rightarrow>
          (let center = vdiv (vadd bounds_min bounds_max) 2;
               max_size = planar_extent (bounds_min, bounds_max)
           in if max_size = 0 then Inl NonFinite
              else let scale = (real_of_int icon_size * (8 / 10)) / max_size
                   in Inr (map (\<lambda>(m, layer_num).
                        (m\<lparr>vertices := map (normalize_vertex icon_size center scale) (vertices m)\<rparr>,
                         layer_num)) meshes)))"

section \<open>Shading\<close>

text \<open>
  The intensity and the colour follow the program's formulas in exact arithmetic: real
  numbers for its doubles, unbounded integers for its 64-bit ones. The values the program
  computes can differ from these by the rounding of each operation and, for layer numbers
  beyond the 64-bit range, by numpy's conversions. The definitions serve to build the
  polygons of the drawing; no result below depends on the value of an intensity or of a
  colour.
\<close>

definition compute_lighting :: "vec3 \<Rightarrow> vec3 \<Rightarrow> real" where
  "compute_lighting normal light_dir =
     (let n = vdiv normal (norm3 normal + 1 / 10 ^ 10);
          l = vdiv light_dir (norm3 light_dir + 1 / 10 ^ 10);
          intensity = dot n l
      in max 0 intensity * (7 / 10) + 3 / 10)"

text \<open>Python's \<^verbatim>\<open>int(x)\<close> and numpy's \<^verbatim>\<open>astype(int)\<close> truncate towards zero.\<close>

definition py_int :: "real \<Rightarrow> int" where
  "py_int x = (if x < 0 then \<lceil>x\<rceil> else \<lfloor>x\<rfloor>)"

definition clip :: "int \<Rightarrow> int \<Rightarrow> int \<Rightarrow> int" where
  "clip x lo hi = min (max x lo) hi"

definition base_color :: "int \<Rightarrow> int \<times> int \<times> int" where
  "base_color layer_num =
     (let layer_ratio = real_of_int layer_num / 11
      in (py_int (255 * (2 / 10 + 8 / 10 * layer_ratio)),
          py_int (255 * (4 / 10 + 6 / 10 * layer_ratio)),
          py_int (255 * (6 / 10 + 4 / 10 * layer_ratio))))"

definition face_color :: "int \<Rightarrow> real \<Rightarrow> int \<times> int \<times> int" where
  "face_color layer_num intensity =
     (case base_color layer_num of (r, g, b) \<Rightarrow>
        (clip (py_int (real_of_int r * intensity)) 0 255,
         clip (py_int (real_of_int g * intensity)) 0 255,
         clip (py_int (real_of_int b * intensity)) 0 255))"

section \<open>Rendering (\<^verbatim>\<open>generate_svg\<close>)\<close>

definition light_dir :: vec3 where
  "light_dir = (1, 0, 3 / 10)"

text \<open>numpy indexing: a negative index counts from the end, an index out of range raises.\<close>

definition vertex_at :: "vec3 list \<Rightarrow> int \<Rightarrow> failure + vec3" where
  "vertex_at vs i =
     (let n = int (length vs); j = (if i < 0 then n + i else i)
      in if 0 \<le> j \<and> j < n then Inr (vs ! nat j) else Inl IndexError)"

definition face_vertices :: "mesh \<Rightarrow> face \<Rightarrow> failure + (vec3 \<times> vec3 \<times> vec3)" where
  "face_vertices m f = (case f of (a, b, c) \<Rightarrow>
     (case vertex_at (vertices m) a of Inl e \<Rightarrow> Inl e | Inr v0 \<Rightarrow>
     (case vertex_at (vertices m) b of Inl e \<Rightarrow> Inl e | Inr v1 \<Rightarrow>
     (case vertex_at (vertices m) c of Inl e \<Rightarrow> Inl e | Inr v2 \<Rightarrow> Inr (v0, v1, v2)))))"

definition face_normal :: "vec3 \<times> vec3 \<times> vec3 \<Rightarrow> vec3" where
  "face_normal t = (case t of (v0, v1, v2) \<Rightarrow> cross (vsub v1 v0) (vsub v2 v0))"

definition project :: "int \<Rightarrow> vec3 \<Rightarrow> real \<times> real" where
  "project icon_size v = (vx v, real_of_int icon_size - vy v)"

definition face_polygon :: "int \<Rightarrow> int \<Rightarrow> vec3 \<times> vec3 \<times> vec3 \<Rightarrow> polygon" where
  "face_polygon icon_size layer_num t = (case t of (v0, v1, v2) \<Rightarrow>
     (let intensity = compute_lighting (face_normal t) light_dir
      in \<lparr>points = [project icon_size v0, project icon_size v1, project icon_size v2],
          fill = face_color layer_num intensity\<rparr>))"

text \<open>
  The body of the loop over the faces of one mesh: the polygons the face adds to the
  drawing (none when its normal points away, \<^verbatim>\<open>normal[2] < 0\<close>), or the exception.
\<close>

definition render_face :: "int \<Rightarrow> int \<Rightarrow> mesh \<Rightarrow> face \<Rightarrow> failure + polygon list" where
  "render_face icon_size layer_num m f =
     (case face_vertices m f of
        Inl e \<Rightarrow> Inl e
      | Inr t \<Rightarrow> if vz (face_normal t) < 0 then Inr []
                 else Inr [face_polygon icon_size layer_num t])"

text \<open>
  A loop whose body adds elements to the drawing: the bodies run in order, and the
  first exception ends the run.
\<close>

fun collect :: "(failure + 'a list) list \<Rightarrow> failure + 'a list" where
  "collect [] = Inr []"
| "collect (r # rs) =
     (case r of
        Inl e \<Rightarrow> Inl e
      | Inr xs \<Rightarrow> (case collect rs of Inl e \<Rightarrow> Inl e | Inr ys \<Rightarrow> Inr (xs @ ys)))"

definition render_mesh :: "int \<Rightarrow> mesh \<times> int \<Rightarrow> failure + polygon list" where
  "render_mesh icon_size ml = (case ml of (m, layer_num) \<Rightarrow>
     collect (map (render_face icon_size layer_num m) (faces m)))"

text \<open>
  The mean of the Z coordinates of a mesh, the sort key. For a mesh without vertices
  numpy's mean is NaN (with a warning, not an exception): that key is \<open>None\<close>.
  A comparison \<^verbatim>\<open><\<close> with NaN on either side is false.
\<close>

definition mean_z :: "mesh \<Rightarrow> real option" where
  "mean_z m =
     (if vertices m = [] then None
      else Some (sum_list (map vz (vertices m)) / real (length (vertices m))))"

definition has_vertices :: "scene \<Rightarrow> bool" where
  "has_vertices meshes = list_all (\<lambda>ml. vertices (fst ml) \<noteq> []) meshes"

definition key_lt :: "real option \<Rightarrow> real option \<Rightarrow> bool" where
  "key_lt a b =
     (case a of None \<Rightarrow> False | Some x \<Rightarrow> (case b of None \<Rightarrow> False | Some y \<Rightarrow> x < y))"

text \<open>
  Python's \<^verbatim>\<open>sorted\<close>. On keys that are all numbers it returns the stable
  ascending sort. It compares with \<^verbatim>\<open><\<close> only, so with a NaN among the keys the
  outcome is whatever its procedure leaves behind. That procedure, for a list of fewer
  than 64 elements (CPython's \<^verbatim>\<open>list.sort\<close> before version 3.13), is: take the
  longest run at the start of the list, either ascending (no element less than the one
  before it) or strictly descending (then reversed), and insert each remaining element
  into it by binary search. For 64 or more elements CPython also merges runs; on keys
  without NaN the result is the same stable sort, with NaN the model does not follow
  it. The results stated for scenes with a NaN key of any length use two facts only,
  which hold of every sort that compares keys: the result is a rearrangement of the list
  (\<open>set_py_sorted\<close>) and depends on the elements through their keys alone
  (\<open>py_sorted_map\<close>).
\<close>

fun ascending_run :: "('a \<Rightarrow> real option) \<Rightarrow> 'a \<Rightarrow> 'a list \<Rightarrow> 'a list \<times> 'a list" where
  "ascending_run k x [] = ([x], [])"
| "ascending_run k x (y # ys) =
     (if key_lt (k y) (k x) then ([x], y # ys)
      else (case ascending_run k y ys of (run, rest) \<Rightarrow> (x # run, rest)))"

fun descending_run :: "('a \<Rightarrow> real option) \<Rightarrow> 'a \<Rightarrow> 'a list \<Rightarrow> 'a list \<times> 'a list" where
  "descending_run k x [] = ([x], [])"
| "descending_run k x (y # ys) =
     (if key_lt (k y) (k x)
      then (case descending_run k y ys of (run, rest) \<Rightarrow> (x # run, rest))
      else ([x], y # ys))"

definition count_run :: "('a \<Rightarrow> real option) \<Rightarrow> 'a list \<Rightarrow> 'a list \<times> 'a list" where
  "count_run k xs =
     (case xs of
        [] \<Rightarrow> ([], [])
      | [x] \<Rightarrow> ([x], [])
      | x # y # ys \<Rightarrow>
          if key_lt (k y) (k x)
          then (case descending_run k x (y # ys) of (run, rest) \<Rightarrow> (rev run, rest))
          else ascending_run k x (y # ys))"

function bisect :: "('a \<Rightarrow> real option) \<Rightarrow> 'a list \<Rightarrow> 'a \<Rightarrow> nat \<Rightarrow> nat \<Rightarrow> nat" where
  "bisect k a pivot l r =
     (if l < r
      then (let p = l + (r - l) div 2
            in if key_lt (k pivot) (k (a ! p)) then bisect k a pivot l p
               else bisect k a pivot (p + 1) r)
      else l)"
  by pat_completeness auto
termination
  by (relation "measure (\<lambda>(k, a, pivot, l, r). r - l)") auto

declare bisect.simps [simp del]

definition binary_insert :: "('a \<Rightarrow> real option) \<Rightarrow> 'a list \<Rightarrow> 'a \<Rightarrow> 'a list" where
  "binary_insert k a pivot =
     (let l = bisect k a pivot 0 (length a) in take l a @ pivot # drop l a)"

definition binarysort :: "('a \<Rightarrow> real option) \<Rightarrow> 'a list \<Rightarrow> 'a list \<Rightarrow> 'a list" where
  "binarysort k run rest = foldl (binary_insert k) run rest"

definition list_sort :: "('a \<Rightarrow> real option) \<Rightarrow> 'a list \<Rightarrow> 'a list" where
  "list_sort k xs = (case count_run k xs of (run, rest) \<Rightarrow> binarysort k run rest)"

definition py_sorted :: "('a \<Rightarrow> real option) \<Rightarrow> 'a list \<Rightarrow> 'a list" where
  "py_sorted k xs =
     (if list_all (\<lambda>x. k x \<noteq> None) xs then sort_key (\<lambda>x. the (k x)) xs
      else list_sort k xs)"

definition sorted_meshes :: "scene \<Rightarrow> scene" where
  "sorted_meshes meshes = py_sorted (\<lambda>ml. mean_z (fst ml)) meshes"

definition generate_svg :: "int \<Rightarrow> scene \<Rightarrow> failure + polygon list" where
  "generate_svg icon_size meshes =
     collect (map (render_mesh icon_size) (sorted_meshes meshes))"

section \<open>The drawing with the origin of each polygon\<close>

text \<open>
  To state which mesh and which face a polygon of the drawing comes from, the same
  loops are run with every polygon paired with the position of its mesh in
  \<^verbatim>\<open>self.meshes\<close> and the \<^verbatim>\<open>face_idx\<close> of its face. Forgetting the pairs
  gives \<open>generate_svg\<close> back (lemmas \<open>generate_svg_erase\<close> and
  \<open>generate_svg_of_trace\<close>), polygon by polygon and in the same order.
\<close>

type_synonym entry = "nat \<times> nat \<times> polygon"

definition mesh_index :: "entry \<Rightarrow> nat" where
  "mesh_index e = fst e"

definition face_index :: "entry \<Rightarrow> nat" where
  "face_index e = fst (snd e)"

definition polygon_of :: "entry \<Rightarrow> polygon" where
  "polygon_of e = snd (snd e)"

text \<open>The mesh and the face a polygon of the drawing comes from, and the layer of that mesh.\<close>

definition origin :: "entry \<Rightarrow> nat \<times> nat" where
  "origin e = (mesh_index e, face_index e)"

definition layer_of :: "scene \<Rightarrow> entry \<Rightarrow> int" where
  "layer_of meshes e = snd (meshes ! mesh_index e)"

definition tag_face :: "nat \<Rightarrow> nat \<Rightarrow> failure + polygon list \<Rightarrow> failure + entry list" where
  "tag_face i k r = map_sum id (map (\<lambda>p. (i, k, p))) r"

definition render_mesh_trace :: "int \<Rightarrow> nat \<times> mesh \<times> int \<Rightarrow> failure + entry list" where
  "render_mesh_trace icon_size iml = (case iml of (i, m, layer_num) \<Rightarrow>
     collect (map (\<lambda>kf. tag_face i (fst kf) (render_face icon_size layer_num m (snd kf)))
                  (enumerate 0 (faces m))))"

definition generate_svg_trace :: "int \<Rightarrow> scene \<Rightarrow> failure + entry list" where
  "generate_svg_trace icon_size meshes =
     collect (map (render_mesh_trace icon_size)
                  (py_sorted (\<lambda>iml. mean_z (fst (snd iml))) (enumerate 0 meshes)))"

text \<open>The order of the drawing: by key, and by position in the scene among equal keys.\<close>

definition lex_before :: "(nat \<Rightarrow> real) \<Rightarrow> nat \<Rightarrow> nat \<Rightarrow> bool" where
  "lex_before key i j \<longleftrightarrow> key i < key j \<or> (key i = key j \<and> i \<le> j)"

text \<open>A face that \<^verbatim>\<open>generate_svg\<close> skips: its vertices exist and its normal has a negative Z.\<close>

definition culled :: "mesh \<Rightarrow> face \<Rightarrow> bool" where
  "culled m f = (case face_vertices m f of Inl e \<Rightarrow> False | Inr t \<Rightarrow> vz (face_normal t) < 0)"

definition no_face_survives :: "scene \<Rightarrow> bool" where
  "no_face_survives meshes = list_all (\<lambda>ml. list_all (culled (fst ml)) (faces (fst ml))) meshes"

text \<open>The origins a face and a mesh add to the drawing, computed without the layer number.\<close>

definition face_origin :: "nat \<Rightarrow> mesh \<Rightarrow> nat \<times> face \<Rightarrow> failure + (nat \<times> nat) list" where
  "face_origin i m kf = (case face_vertices m (snd kf) of Inl e \<Rightarrow> Inl e
     | Inr t \<Rightarrow> if vz (face_normal t) < 0 then Inr [] else Inr [(i, fst kf)])"

definition mesh_origins :: "nat \<times> mesh \<Rightarrow> failure + (nat \<times> nat) list" where
  "mesh_origins im = collect (map (face_origin (fst im) (snd im)) (enumerate 0 (faces (snd im))))"

section \<open>The rotations as coordinate formulas\<close>

text \<open>
  The rotations about the X and the Y axis by an angle in radians, as coordinate
  formulas.
\<close>

definition rot_x :: "real \<Rightarrow> vec3 \<Rightarrow> vec3" where
  "rot_x a v = (vx v, vy v * cos a - vz v * sin a, vy v * sin a + vz v * cos a)"

definition rot_y :: "real \<Rightarrow> vec3 \<Rightarrow> vec3" where
  "rot_y a v = (vx v * cos a + vz v * sin a, vy v, vz v * cos a - vx v * sin a)"

section \<open>Example scenes\<close>

text \<open>
  A unit square at height \<open>z\<close>, two triangles facing \<open>+Z\<close>, and the scene of the
  end-to-end scenario of the specification: layer 11 at \<open>z = 10\<close>, layer 1 at
  \<open>z = -10\<close>, loaded in that order; then its drawing.
\<close>

definition quad :: "real \<Rightarrow> mesh" where
  "quad z = \<lparr>vertices = [(0, 0, z), (1, 0, z), (1, 1, z), (0, 1, z)],
            faces = [(0, 1, 2), (0, 2, 3)]\<rparr>"

definition two_quads :: scene where
  "two_quads = [(quad 10, 11), (quad (- 10), 1)]"

definition two_quads_trace :: "entry list" where
  "two_quads_trace =
     [(1, 0, face_polygon 100 1 ((0, 0, - 10), (1, 0, - 10), (1, 1, - 10))),
      (1, 1, face_polygon 100 1 ((0, 0, - 10), (1, 1, - 10), (0, 1, - 10))),
      (0, 0, face_polygon 100 11 ((0, 0, 10), (1, 0, 10), (1, 1, 10))),
      (0, 1, face_polygon 100 11 ((0, 0, 10), (1, 1, 10), (0, 1, 10)))]"

text \<open>
  Two squares at the same height, with layers 5 and 1, and the same with the layers
  exchanged; their drawings.
\<close>

definition level_quads :: scene where
  "level_quads = [(quad 0, 5), (quad 0, 1)]"

definition level_quads_trace :: "entry list" where
  "level_quads_trace =
     [(0, 0, face_polygon 100 5 ((0, 0, 0), (1, 0, 0), (1, 1, 0))),
      (0, 1, face_polygon 100 5 ((0, 0, 0), (1, 1, 0), (0, 1, 0))),
      (1, 0, face_polygon 100 1 ((0, 0, 0), (1, 0, 0), (1, 1, 0))),
      (1, 1, face_polygon 100 1 ((0, 0, 0), (1, 1, 0), (0, 1, 0)))]"

definition level_quads_swapped :: scene where
  "level_quads_swapped = [(quad 0, 1), (quad 0, 5)]"

definition level_quads_swapped_trace :: "entry list" where
  "level_quads_swapped_trace =
     [(0, 0, face_polygon 100 1 ((0, 0, 0), (1, 0, 0), (1, 1, 0))),
      (0, 1, face_polygon 100 1 ((0, 0, 0), (1, 1, 0), (0, 1, 0))),
      (1, 0, face_polygon 100 5 ((0, 0, 0), (1, 0, 0), (1, 1, 0))),
      (1, 1, face_polygon 100 5 ((0, 0, 0), (1, 1, 0), (0, 1, 0)))]"

text \<open>
  A square whose two triangles face away, and a square with one triangle of each kind;
  the drawing of the latter.
\<close>

definition back_quad :: mesh where
  "back_quad = \<lparr>vertices = [(0, 0, 0), (1, 0, 0), (1, 1, 0), (0, 1, 0)],
               faces = [(0, 2, 1), (0, 3, 2)]\<rparr>"

definition half_quad :: mesh where
  "half_quad = \<lparr>vertices = [(0, 0, 0), (1, 0, 0), (1, 1, 0), (0, 1, 0)],
               faces = [(0, 1, 2), (0, 3, 2)]\<rparr>"

definition half_quad_trace :: "entry list" where
  "half_quad_trace = [(0, 0, face_polygon 64 7 ((0, 0, 0), (1, 0, 0), (1, 1, 0)))]"

text \<open>
  A mesh with the single vertex \<open>(1, 0, 0)\<close>, the scene of that mesh, the unit square
  as a scene, and the latter normalised with the icon size \<open>-10\<close>.
\<close>

definition unit_x_mesh :: mesh where
  "unit_x_mesh = \<lparr>vertices = [(1, 0, 0)], faces = []\<rparr>"

definition point_scene :: scene where
  "point_scene = [(unit_x_mesh, 1)]"



text \<open>
  A mesh without vertices, whose sort key is NaN. Between a square at height 5 and a
  square at height -5 it leaves no element of the key list less than the one before it.
  In the scene of seven meshes with the keys 0, 0, 9, NaN, 5, 0, 5 the binary search
  passes the NaN by.
\<close>

definition no_vertices :: mesh where
  "no_vertices = \<lparr>vertices = [], faces = []\<rparr>"

definition gap_scene :: scene where
  "gap_scene = [(quad 5, 1), (no_vertices, 2), (quad (- 5), 3)]"

definition nan_ties_scene :: scene where
  "nan_ties_scene =
     [(quad 0, 1), (quad 0, 2), (quad 9, 3), (no_vertices, 4), (quad 5, 5), (quad 0, 6),
      (quad 5, 7)]"

section \<open>Loops and the sort\<close>

lemma collect_map_Inr: "collect (map Inr xss) = Inr (concat xss)"
  by (induction xss) auto

lemma collect_InrD:
  "collect rs = Inr out \<Longrightarrow> \<exists>xss. rs = map Inr xss \<and> out = concat xss"
proof (induction rs arbitrary: out)
  case Nil
  then show ?case by simp
next
  case (Cons r rs)
  from Cons.prems obtain xs ys where r: "r = Inr xs" and ys: "collect rs = Inr ys"
    and out: "out = xs @ ys"
    by (auto split: sum.splits)
  from Cons.IH [OF ys] obtain xss where "rs = map Inr xss" "ys = concat xss" by blast
  with r out have "r # rs = map Inr (xs # xss) \<and> out = concat (xs # xss)" by simp
  then show ?case by (rule exI)
qed

lemma collect_map_sum:
  "collect (map (map_sum id (map g)) rs) = map_sum id (map g) (collect rs)"
  by (induction rs) (auto split: sum.splits)

lemma ascending_run_append: "ascending_run k x ys = (run, rest) \<Longrightarrow> run @ rest = x # ys"
  by (induction ys arbitrary: x run rest) (auto split: if_splits prod.splits)

lemma descending_run_append: "descending_run k x ys = (run, rest) \<Longrightarrow> run @ rest = x # ys"
  by (induction ys arbitrary: x run rest) (auto split: if_splits prod.splits)

lemma set_count_run: "count_run k xs = (run, rest) \<Longrightarrow> set run \<union> set rest = set xs"
proof (cases xs)
  case Nil
  then show "count_run k xs = (run, rest) \<Longrightarrow> ?thesis" by (simp add: count_run_def)
next
  case (Cons x ys)
  show "count_run k xs = (run, rest) \<Longrightarrow> ?thesis"
  proof (cases ys)
    case Nil
    with Cons show "count_run k xs = (run, rest) \<Longrightarrow> ?thesis"
      by (auto simp: count_run_def)
  next
    case c2: (Cons y zs)
    assume a: "count_run k xs = (run, rest)"
    show ?thesis
    proof (cases "key_lt (k y) (k x)")
      case True
      with a Cons c2 obtain r where "descending_run k x (y # zs) = (r, rest)" "run = rev r"
        by (auto simp: count_run_def split: prod.splits)
      with descending_run_append [of k x "y # zs" r rest] Cons c2 show ?thesis
        by (metis set_append set_rev)
    next
      case False
      with a Cons c2 have "ascending_run k x (y # zs) = (run, rest)"
        by (auto simp: count_run_def)
      with ascending_run_append [of k x "y # zs" run rest] Cons c2 show ?thesis
        by (metis set_append)
    qed
  qed
qed

lemma set_binary_insert: "set (binary_insert k a pivot) = insert pivot (set a)"
proof -
  have "set (take l a @ pivot # drop l a) = insert pivot (set a)" for l
  proof -
    have "set a = set (take l a) \<union> set (drop l a)"
      using set_append [of "take l a" "drop l a"] by simp
    then show ?thesis by auto
  qed
  then show ?thesis by (simp add: binary_insert_def Let_def)
qed

lemma set_binarysort: "set (binarysort k run rest) = set run \<union> set rest"
  unfolding binarysort_def
  by (induction rest arbitrary: run) (auto simp: set_binary_insert)

lemma set_list_sort: "set (list_sort k xs) = set xs"
  by (cases "count_run k xs") (simp add: list_sort_def set_binarysort set_count_run)

lemma set_py_sorted: "set (py_sorted k xs) = set xs"
  by (simp add: py_sorted_def set_list_sort)

lemma ascending_run_map:
  "ascending_run f (g x) (map g ys) = map_prod (map g) (map g) (ascending_run (\<lambda>x. f (g x)) x ys)"
  by (induction ys arbitrary: x) (auto split: prod.splits)

lemma descending_run_map:
  "descending_run f (g x) (map g ys) = map_prod (map g) (map g) (descending_run (\<lambda>x. f (g x)) x ys)"
  by (induction ys arbitrary: x) (auto split: prod.splits)

lemma count_run_map:
  "count_run f (map g xs) = map_prod (map g) (map g) (count_run (\<lambda>x. f (g x)) xs)"
proof (cases xs)
  case Nil
  then show ?thesis by (simp add: count_run_def)
next
  case (Cons x ys)
  show ?thesis
  proof (cases ys)
    case Nil
    with Cons show ?thesis by (simp add: count_run_def)
  next
    case c2: (Cons y zs)
    have a: "ascending_run f (g x) (g y # map g zs)
        = map_prod (map g) (map g) (ascending_run (\<lambda>x. f (g x)) x (y # zs))"
      using ascending_run_map [of f g x "y # zs"] by simp
    have d: "descending_run f (g x) (g y # map g zs)
        = map_prod (map g) (map g) (descending_run (\<lambda>x. f (g x)) x (y # zs))"
      using descending_run_map [of f g x "y # zs"] by simp
    show ?thesis
      unfolding Cons c2 count_run_def
      by (simp only: list.map list.case a d split: if_splits)
         (auto simp: rev_map split: prod.splits)
  qed
qed

lemma bisect_map:
  "r \<le> length a \<Longrightarrow> bisect f (map g a) (g pivot) l r = bisect (\<lambda>x. f (g x)) a pivot l r"
proof (induction "\<lambda>x. f (g x)" a pivot l r rule: bisect.induct)
  case (1 a pivot l r)
  show ?case
  proof (cases "l < r")
    case True
    let ?p = "l + (r - l) div 2"
    from True 1(3) have p: "?p < length a" "?p \<le> length a" by auto
    show ?thesis
    proof (cases "key_lt (f (g pivot)) (f (g (a ! ?p)))")
      case k: True
      with True p 1(1) [OF True refl] show ?thesis
        by (subst (1 2) bisect.simps) (simp add: Let_def)
    next
      case k: False
      with True p 1(2) [OF True refl] 1(3) show ?thesis
        by (subst (1 2) bisect.simps) (simp add: Let_def)
    qed
  next
    case False
    then show ?thesis by (subst (1 2) bisect.simps) simp
  qed
qed

lemma binary_insert_map:
  "binary_insert f (map g a) (g pivot) = map g (binary_insert (\<lambda>x. f (g x)) a pivot)"
  by (simp add: binary_insert_def Let_def bisect_map [of "length a" a, simplified] take_map drop_map)

lemma binarysort_map:
  "binarysort f (map g run) (map g rest) = map g (binarysort (\<lambda>x. f (g x)) run rest)"
  unfolding binarysort_def
  by (induction rest arbitrary: run) (simp_all add: binary_insert_map)

lemma list_sort_map: "list_sort f (map g xs) = map g (list_sort (\<lambda>x. f (g x)) xs)"
  by (cases "count_run (\<lambda>x. f (g x)) xs") (simp add: list_sort_def count_run_map binarysort_map)

lemma insort_key_map:
  "map g (insort_key (\<lambda>x. f (g x)) x xs) = insort_key f (g x) (map g xs)"
  by (induction xs) auto

lemma sort_key_map:
  "map g (sort_key (\<lambda>x. f (g x)) xs) = sort_key f (map g xs)"
  by (induction xs) (auto simp: insort_key_map)

lemma py_sorted_map: "map g (py_sorted (\<lambda>x. f (g x)) xs) = py_sorted f (map g xs)"
proof -
  have "list_all (\<lambda>y. f y \<noteq> None) (map g xs) = list_all (\<lambda>x. f (g x) \<noteq> None) xs"
    by (simp add: list_all_iff)
  then show ?thesis
    by (simp add: py_sorted_def list_sort_map sort_key_map [of g "\<lambda>y. the (f y)"])
qed

lemma render_mesh_erase:
  "map_sum id (map (\<lambda>e. snd (snd e))) (render_mesh_trace icon_size (i, ml)) = render_mesh icon_size ml"
proof -
  obtain m l where ml: "ml = (m, l)" by (cases ml)
  have "map (\<lambda>kf. map_sum id (map (\<lambda>e. snd (snd e))) (tag_face i (fst kf) (render_face icon_size l m (snd kf)))) kfs
      = map (render_face icon_size l m) (map snd kfs)" for kfs
    by (induction kfs) (auto simp: tag_face_def sum.map_comp comp_def sum.map_ident)
  from this [of "enumerate 0 (faces m)"] show ?thesis
    unfolding render_mesh_trace_def render_mesh_def ml
    by (simp add: collect_map_sum [symmetric] comp_def map_snd_enumerate)
qed

lemma generate_svg_erase:
  "generate_svg icon_size meshes = map_sum id (map (\<lambda>e. snd (snd e))) (generate_svg_trace icon_size meshes)"
proof -
  let ?er = "map_sum id (map (\<lambda>e. snd (snd e)))"
  let ?S = "py_sorted (\<lambda>iml. mean_z (fst (snd iml))) (enumerate 0 meshes)"
  have 1: "map ?er (map (render_mesh_trace icon_size) xs)
      = map (render_mesh icon_size) (map snd xs)" for xs
    by (induction xs) (auto simp: render_mesh_erase [unfolded id_def])
  have 2: "map snd ?S = sorted_meshes meshes"
    unfolding sorted_meshes_def
    using py_sorted_map [where g = snd and f = "\<lambda>ml. mean_z (fst ml)" and xs = "enumerate 0 meshes"]
    by (simp add: map_snd_enumerate)
  have "?er (generate_svg_trace icon_size meshes)
      = collect (map ?er (map (render_mesh_trace icon_size) ?S))"
    unfolding generate_svg_trace_def by (rule collect_map_sum [symmetric])
  also have "\<dots> = collect (map (render_mesh icon_size) (map snd ?S))"
    by (rule arg_cong [OF 1])
  finally show ?thesis
    unfolding generate_svg_def 2 by simp
qed

lemma generate_svg_forget:
  "generate_svg icon_size meshes
     = map_sum id (map polygon_of) (generate_svg_trace icon_size meshes)"
proof -
  have "polygon_of = (\<lambda>e. snd (snd e))" by (rule ext) (simp add: polygon_of_def)
  then show ?thesis by (simp add: generate_svg_erase)
qed

lemma generate_svg_of_trace:
  assumes "generate_svg_trace icon_size meshes = Inr out"
  shows "generate_svg icon_size meshes = Inr (map polygon_of out)"
  using assms by (simp add: generate_svg_forget)

lemma insort_key_lex:
  fixes f :: "'a \<Rightarrow> real" and idx :: "'a \<Rightarrow> nat"
  assumes "sorted_wrt (\<lambda>a b. f a < f b \<or> (f a = f b \<and> idx a < idx b)) ys"
    and "\<forall>y\<in>set ys. idx x < idx y"
  shows "sorted_wrt (\<lambda>a b. f a < f b \<or> (f a = f b \<and> idx a < idx b)) (insort_key f x ys)"
  using assms
proof (induction ys)
  case Nil
  then show ?case by simp
next
  case (Cons y ys)
  show ?case
  proof (cases "f x \<le> f y")
    case True
    with Cons.prems show ?thesis by (fastforce simp: less_eq_real_def)
  next
    case False
    with Cons show ?thesis by (auto simp: set_insort_key)
  qed
qed

lemma sort_key_lex:
  fixes f :: "'a \<Rightarrow> real" and idx :: "'a \<Rightarrow> nat"
  assumes "sorted_wrt (\<lambda>a b. idx a < idx b) xs"
  shows "sorted_wrt (\<lambda>a b. f a < f b \<or> (f a = f b \<and> idx a < idx b)) (sort_key f xs)"
  using assms
proof (induction xs)
  case Nil
  then show ?case by simp
next
  case (Cons x xs)
  then have "sorted_wrt (\<lambda>a b. f a < f b \<or> (f a = f b \<and> idx a < idx b)) (sort_key f xs)"
    and "\<forall>y\<in>set (sort_key f xs). idx x < idx y"
    by auto
  then show ?case by (simp add: insort_key_lex)
qed

lemma sorted_wrt_enumerate: "sorted_wrt (\<lambda>a b. fst a < fst b) (enumerate n xs)"
proof -
  have "sorted_wrt (<) (map fst (enumerate n xs))"
    by (simp add: map_fst_enumerate)
  then show ?thesis unfolding sorted_wrt_map .
qed

lemma sorted_wrt_concat_tagged:
  assumes "list_all2 (\<lambda>s xs. \<forall>e\<in>set xs. tag e = t s) S xss"
    and "sorted_wrt (\<lambda>a b. R (t a) (t b)) S"
    and "\<And>i. R i i"
  shows "sorted_wrt (\<lambda>a b. R (tag a) (tag b)) (concat xss)"
  using assms(1,2)
proof (induction rule: list_all2_induct)
  case Nil
  then show ?case by simp
next
  case (Cons s S xs xss)
  have 1: "sorted_wrt (\<lambda>a b. R (tag a) (tag b)) xs"
    using Cons.hyps(1) assms(3) by (simp add: sorted_wrt_iff_nth_less)
  have 2: "\<forall>a\<in>set xs. \<forall>b\<in>set (concat xss). R (tag a) (tag b)"
  proof (intro ballI)
    fix a b assume a: "a \<in> set xs" and b: "b \<in> set (concat xss)"
    from b obtain ys where ys: "ys \<in> set xss" "b \<in> set ys" by auto
    from ys(1) obtain n where n: "n < length xss" "ys = xss ! n"
      by (auto simp: in_set_conv_nth)
    with Cons.hyps(2) have "S ! n \<in> set S" "\<forall>e\<in>set ys. tag e = t (S ! n)"
      by (simp_all add: list_all2_conv_all_nth)
    then obtain s' where "s' \<in> set S" "\<forall>e\<in>set ys. tag e = t s'" by blast
    with Cons.prems Cons.hyps(1) a ys(2) show "R (tag a) (tag b)" by auto
  qed
  from Cons 1 2 show ?case by (simp add: sorted_wrt_append)
qed

section \<open>What the drawing holds, and in which order\<close>

lemma render_face_cases:
  "render_face icon_size l m f = Inr ps \<Longrightarrow> p \<in> set ps \<Longrightarrow> ps = [p]"
  by (auto simp: render_face_def split: sum.splits if_splits)

lemma render_mesh_trace_entries:
  assumes "render_mesh_trace icon_size (i, m, l) = Inr xs" and "e \<in> set xs"
  shows "fst e = i \<and> fst (snd e) < length (faces m)
       \<and> render_face icon_size l m (faces m ! fst (snd e)) = Inr [snd (snd e)]"
proof -
  let ?g = "\<lambda>kf. tag_face i (fst kf) (render_face icon_size l m (snd kf))"
  from assms(1) obtain xss where xss: "map ?g (enumerate 0 (faces m)) = map Inr xss"
    and xs: "xs = concat xss"
    unfolding render_mesh_trace_def by (auto dest: collect_InrD)
  from arg_cong [OF xss, of length] have len: "length xss = length (faces m)" by simp
  from assms(2) xs obtain ys where "ys \<in> set xss" "e \<in> set ys" by auto
  then obtain n where n: "n < length xss" "e \<in> set (xss ! n)"
    by (metis in_set_conv_nth)
  from arg_cong [OF xss, of "\<lambda>zs. zs ! n"] n(1) len have tg: "tag_face i n (render_face icon_size l m (faces m ! n)) = Inr (xss ! n)"
    by (simp add: nth_enumerate_eq)
  then obtain ps where ps: "render_face icon_size l m (faces m ! n) = Inr ps"
    and eq: "xss ! n = map (\<lambda>p. (i, n, p)) ps"
    by (cases "render_face icon_size l m (faces m ! n)") (auto simp: tag_face_def)
  from n(2) eq obtain p where p: "p \<in> set ps" "e = (i, n, p)" by auto
  from render_face_cases [OF ps p(1)] ps p(2) n(1) len show ?thesis by simp
qed

lemma has_vertices_keys:
  assumes "has_vertices meshes"
  shows "list_all (\<lambda>iml. mean_z (fst (snd iml)) \<noteq> None) (enumerate 0 meshes)"
proof -
  have "mean_z (fst (snd iml)) \<noteq> None" if "iml \<in> set (enumerate 0 meshes)" for iml
  proof -
    have "snd iml \<in> set meshes"
      using that by (auto simp: in_set_enumerate_eq dest: nth_mem)
    with assms have "vertices (fst (snd iml)) \<noteq> []"
      by (simp add: has_vertices_def list_all_iff)
    then show ?thesis by (simp add: mean_z_def)
  qed
  then show ?thesis by (simp add: list_all_iff)
qed

lemma sorted_enumerated:
  assumes "has_vertices meshes"
  shows "sorted_wrt (\<lambda>a b. lex_before (\<lambda>i. the (mean_z (fst (meshes ! i)))) (fst a) (fst b))
     (py_sorted (\<lambda>iml. mean_z (fst (snd iml))) (enumerate 0 meshes))"
proof -
  let ?f = "\<lambda>iml :: nat \<times> mesh \<times> int. the (mean_z (fst (snd iml)))"
  let ?S = "sort_key ?f (enumerate 0 meshes)"
  have S: "py_sorted (\<lambda>iml. mean_z (fst (snd iml))) (enumerate 0 meshes) = ?S"
    using has_vertices_keys [OF assms] by (simp add: py_sorted_def)
  have "sorted_wrt (\<lambda>a b. ?f a < ?f b \<or> (?f a = ?f b \<and> fst a < fst b)) ?S"
    by (rule sort_key_lex [OF sorted_wrt_enumerate])
  moreover have "snd a = meshes ! fst a" if "a \<in> set ?S" for a
    using that by (auto simp: in_set_enumerate_eq)
  ultimately show ?thesis
    unfolding S
    by (elim sorted_wrt_mono_rel [rotated]) (auto simp: lex_before_def)
qed

lemma generate_svg_trace_parts:
  assumes "generate_svg_trace icon_size meshes = Inr out"
  shows "\<exists>xss. out = concat xss
     \<and> list_all2 (\<lambda>s xs. render_mesh_trace icon_size s = Inr xs)
          (py_sorted (\<lambda>iml. mean_z (fst (snd iml))) (enumerate 0 meshes)) xss"
proof -
  let ?S = "py_sorted (\<lambda>iml. mean_z (fst (snd iml))) (enumerate 0 meshes)"
  from assms obtain xss where xss: "map (render_mesh_trace icon_size) ?S = map Inr xss"
    and out: "out = concat xss"
    unfolding generate_svg_trace_def by (auto dest: collect_InrD)
  from arg_cong [OF xss, of length] have len: "length ?S = length xss" by simp
  have "render_mesh_trace icon_size (?S ! n) = Inr (xss ! n)" if "n < length ?S" for n
  proof -
    from arg_cong [OF xss, of "\<lambda>zs. zs ! n"] that len show ?thesis by simp
  qed
  with len have "length ?S = length xss"
    and "\<forall>n<length ?S. render_mesh_trace icon_size (?S ! n) = Inr (xss ! n)"
    by blast+
  moreover note this(2)
  ultimately have "list_all2 (\<lambda>s xs. render_mesh_trace icon_size s = Inr xs) ?S xss"
    by (simp add: list_all2_conv_all_nth)
  with out show ?thesis by blast
qed

lemma generate_svg_trace_entries:
  assumes "generate_svg_trace icon_size meshes = Inr out" and "e \<in> set out"
  shows "fst e < length meshes
       \<and> fst (snd e) < length (faces (fst (meshes ! fst e)))
       \<and> render_face icon_size (snd (meshes ! fst e)) (fst (meshes ! fst e))
            (faces (fst (meshes ! fst e)) ! fst (snd e)) = Inr [snd (snd e)]"
proof -
  let ?S = "py_sorted (\<lambda>iml. mean_z (fst (snd iml))) (enumerate 0 meshes)"
  from generate_svg_trace_parts [OF assms(1)] obtain xss where out: "out = concat xss"
    and all: "list_all2 (\<lambda>s xs. render_mesh_trace icon_size s = Inr xs) ?S xss"
    by blast
  from assms(2) out obtain ys where "ys \<in> set xss" "e \<in> set ys" by auto
  then obtain n where n: "n < length xss" "e \<in> set (xss ! n)"
    by (metis in_set_conv_nth)
  from all have len: "length ?S = length xss" by (rule list_all2_lengthD)
  from all n(1) have r: "render_mesh_trace icon_size (?S ! n) = Inr (xss ! n)"
    by (simp add: list_all2_conv_all_nth)
  from n(1) len have "?S ! n \<in> set ?S" by (metis nth_mem)
  with r obtain i m l where s: "?S ! n = (i, m, l)" and i: "i < length meshes" "meshes ! i = (m, l)"
    by (cases "?S ! n") (auto simp: set_py_sorted in_set_enumerate_eq)
  from render_mesh_trace_entries [OF r [unfolded s] n(2)] i show ?thesis by simp
qed

lemma generate_svg_trace_sorted:
  assumes "generate_svg_trace icon_size meshes = Inr out" and "has_vertices meshes"
  shows "sorted_wrt (\<lambda>a b. lex_before (\<lambda>i. the (mean_z (fst (meshes ! i)))) (fst a) (fst b)) out"
proof -
  let ?S = "py_sorted (\<lambda>iml. mean_z (fst (snd iml))) (enumerate 0 meshes)"
  from generate_svg_trace_parts [OF assms(1)] obtain xss where out: "out = concat xss"
    and all: "list_all2 (\<lambda>s xs. render_mesh_trace icon_size s = Inr xs) ?S xss"
    by blast
  have "list_all2 (\<lambda>s xs. \<forall>e\<in>set xs. fst e = fst s) ?S xss"
  proof (rule list_all2_mono [OF all])
    fix s xs assume "render_mesh_trace icon_size s = Inr xs"
    then show "\<forall>e\<in>set xs. fst e = fst s"
      using render_mesh_trace_entries [of icon_size "fst s" "fst (snd s)" "snd (snd s)" xs]
      by simp
  qed
  then show ?thesis
    unfolding out
    by (rule sorted_wrt_concat_tagged [where t = fst and tag = fst
          and R = "lex_before (\<lambda>i. the (mean_z (fst (meshes ! i))))",
          OF _ sorted_enumerated [OF assms(2)]])
       (simp add: lex_before_def)
qed

section \<open>The example scenes, evaluated\<close>

lemma sorted_wrt_nth_less:
  "sorted_wrt R xs \<Longrightarrow> i < j \<Longrightarrow> j < length xs \<Longrightarrow> R (xs ! i) (xs ! j)"
  by (simp add: sorted_wrt_iff_nth_less)

lemma mean_quad: "mean_z (quad z) = Some z"
  by (simp add: mean_z_def quad_def vz_def)

lemma mean_no_vertices: "mean_z no_vertices = None"
  by (simp add: mean_z_def no_vertices_def)

lemma rmt_no_vertices: "render_mesh_trace s (i, no_vertices, l) = Inr []"
  by (simp add: render_mesh_trace_def no_vertices_def)

lemma fv_quad0: "face_vertices (quad z) (0, 1, 2) = Inr ((0, 0, z), (1, 0, z), (1, 1, z))"
  by (simp add: face_vertices_def vertex_at_def quad_def)

lemma fv_quad1: "face_vertices (quad z) (0, 2, 3) = Inr ((0, 0, z), (1, 1, z), (0, 1, z))"
  by (simp add: face_vertices_def vertex_at_def quad_def)

lemma rf_quad0: "render_face s l (quad z) (0, 1, 2) = Inr [face_polygon s l ((0, 0, z), (1, 0, z), (1, 1, z))]"
  by (simp add: render_face_def fv_quad0 face_normal_def cross_def vsub_def vx_def vy_def vz_def)

lemma rf_quad1: "render_face s l (quad z) (0, 2, 3) = Inr [face_polygon s l ((0, 0, z), (1, 1, z), (0, 1, z))]"
  by (simp add: render_face_def fv_quad1 face_normal_def cross_def vsub_def vx_def vy_def vz_def)

lemma faces_quad: "faces (quad z) = [(0, 1, 2), (0, 2, 3)]"
  by (simp add: quad_def)

lemma enum2: "enumerate 0 [a, b] = [(0, a), (1, b)]"
  by (simp add: enumerate_simps)

lemma rmt_quad: "render_mesh_trace s (i, quad z, l) =
   Inr [(i, 0, face_polygon s l ((0, 0, z), (1, 0, z), (1, 1, z))),
        (i, 1, face_polygon s l ((0, 0, z), (1, 1, z), (0, 1, z)))]"
  by (simp add: render_mesh_trace_def faces_quad enum2 rf_quad0 rf_quad1 tag_face_def)

lemma trace_two_quads: "generate_svg_trace 100 two_quads = Inr two_quads_trace"
  by (simp add: generate_svg_trace_def py_sorted_def two_quads_def two_quads_trace_def enum2
      mean_quad rmt_quad)

lemma has_vertices_two_quads: "has_vertices two_quads"
  by (simp add: has_vertices_def two_quads_def quad_def)

section \<open>Depth ordering\<close>

lemma sorted_gap_scene:
  "py_sorted (\<lambda>iml. mean_z (fst (snd iml))) (enumerate 0 gap_scene) = enumerate 0 gap_scene"
  by (simp add: py_sorted_def list_sort_def count_run_def binarysort_def gap_scene_def
      enumerate_simps mean_quad mean_no_vertices key_lt_def)

text \<open>
  C1. In every scene the polygons of a mesh with the lower mean Z should come before
  those of a mesh with the higher mean Z; the program sorts the meshes for that
  (\<^verbatim>\<open>Process layers from bottom to top for proper Z-ordering\<close>). With a mesh without
  vertices in the scene it does not: the key of that mesh is NaN, every comparison with
  it is false, and \<^verbatim>\<open>sorted\<close> takes the list for sorted where it is not. For a
  square at height 5, a mesh without vertices and a square at height -5, in this order,
  the drawing holds the two polygons of the higher square (mesh 0) before the two of the
  lower square (mesh 2).
\<close>

theorem depth_order_lost_behind_empty_mesh:
  "generate_svg 100 gap_scene
     = map_sum id (map polygon_of) (generate_svg_trace 100 gap_scene)
   \<and> map_sum id (map mesh_index) (generate_svg_trace 100 gap_scene) = Inr [0, 0, 2, 2]
   \<and> mean_z (fst (gap_scene ! 0)) = Some 5
   \<and> mean_z (fst (gap_scene ! 2)) = Some (- 5)"
proof -
  have "map_sum id (map mesh_index) (generate_svg_trace 100 gap_scene) = Inr [0, 0, 2, 2]"
    unfolding generate_svg_trace_def sorted_gap_scene
    by (simp add: gap_scene_def enumerate_simps rmt_quad rmt_no_vertices mesh_index_def)
  moreover have "mean_z (fst (gap_scene ! 0)) = Some 5" "mean_z (fst (gap_scene ! 2)) = Some (- 5)"
    by (simp_all add: gap_scene_def mean_quad)
  ultimately show ?thesis using generate_svg_forget [of 100 gap_scene] by simp
qed

text \<open>
  Where every mesh of the scene has at least one vertex the keys are numbers and the
  order is the claimed one: a polygon of a mesh with the lower mean Z comes strictly
  before a polygon of a mesh with the higher mean Z. For positions \<open>p\<close> and \<open>q\<close> of
  the drawing, if the mesh of the polygon at \<open>p\<close> has a lower mean Z than the mesh of
  the polygon at \<open>q\<close>, then \<open>p < q\<close>. The positions are those of the polygons in the
  output of \<open>generate_svg\<close>.
\<close>

theorem depth_ordering:
  assumes "has_vertices meshes"
    and "generate_svg_trace icon_size meshes = Inr out"
    and "p < length out" and "q < length out"
    and "key_lt (mean_z (fst (meshes ! mesh_index (out ! p))))
           (mean_z (fst (meshes ! mesh_index (out ! q))))"
  shows "generate_svg icon_size meshes = Inr (map polygon_of out) \<and> p < q"
proof -
  from assms(5) have lt: "the (mean_z (fst (meshes ! mesh_index (out ! p))))
      < the (mean_z (fst (meshes ! mesh_index (out ! q))))"
    by (auto simp: key_lt_def split: option.splits)
  have "p < q"
  proof (rule ccontr)
    assume "\<not> p < q"
    then consider "q = p" | "q < p" by linarith
    then show False
    proof cases
      case 1
      with lt show False by simp
    next
      case 2
      from sorted_wrt_nth_less [OF generate_svg_trace_sorted [OF assms(2,1)] 2 assms(3)] lt
      show False by (simp add: lex_before_def mesh_index_def)
    qed
  qed
  with generate_svg_of_trace [OF assms(2)] show ?thesis by simp
qed

theorem depth_ordering_witness:
  "has_vertices two_quads
   \<and> generate_svg_trace 100 two_quads = Inr two_quads_trace
   \<and> key_lt (mean_z (fst (two_quads ! mesh_index (two_quads_trace ! 1))))
        (mean_z (fst (two_quads ! mesh_index (two_quads_trace ! 2))))
   \<and> generate_svg 100 two_quads = Inr (map polygon_of two_quads_trace)
   \<and> (1::nat) < 2"
proof -
  have len: "(1::nat) < length two_quads_trace" "(2::nat) < length two_quads_trace"
    by (simp_all add: two_quads_trace_def)
  have key: "key_lt (mean_z (fst (two_quads ! mesh_index (two_quads_trace ! 1))))
        (mean_z (fst (two_quads ! mesh_index (two_quads_trace ! 2))))"
    by (simp add: two_quads_trace_def two_quads_def mesh_index_def mean_quad key_lt_def)
  from depth_ordering [OF has_vertices_two_quads trace_two_quads len key]
    has_vertices_two_quads trace_two_quads key
  show ?thesis by simp
qed

section \<open>Scenes that draw nothing\<close>

lemma collect_all_empty: "\<forall>r\<in>set rs. r = Inr [] \<Longrightarrow> collect rs = Inr []"
  by (induction rs) auto

lemma render_face_culled: "culled m f \<Longrightarrow> render_face icon_size l m f = Inr []"
  by (auto simp: culled_def render_face_def split: sum.splits)

text \<open>
  C8. A scene in which no face survives culling (in particular a scene without meshes,
  or with meshes without faces) is drawn without failure, and the drawing has no
  polygon. Without meshes the bounding box is the unit box and normalisation succeeds
  too.
\<close>

theorem empty_drawing:
  assumes "no_face_survives meshes"
  shows "generate_svg icon_size meshes = Inr []
       \<and> compute_bounds [] = Inr ((0, 0, 0), (1, 1, 1))
       \<and> normalize_meshes icon_size [] = Inr []"
proof -
  have "render_mesh icon_size ml = Inr []" if "ml \<in> set meshes" for ml
  proof -
    from assms that have "list_all (culled (fst ml)) (faces (fst ml))"
      by (simp add: no_face_survives_def list_all_iff)
    then show ?thesis
      by (cases ml) (auto simp: render_mesh_def list_all_iff render_face_culled intro!: collect_all_empty)
  qed
  then have "generate_svg icon_size meshes = Inr []"
    unfolding generate_svg_def sorted_meshes_def
    by (auto simp: set_py_sorted intro!: collect_all_empty)
  moreover have "compute_bounds [] = Inr ((0, 0, 0), (1, 1, 1))"
    by (simp add: compute_bounds_def)
  moreover have "normalize_meshes icon_size [] = Inr []"
    by (simp add: normalize_meshes_def compute_bounds_def planar_extent_def vsub_def vx_def vy_def)
  ultimately show ?thesis by blast
qed

lemma culled_back0: "culled back_quad (0, 2, 1)"
  by (simp add: culled_def back_quad_def face_vertices_def vertex_at_def face_normal_def cross_def vsub_def vx_def vy_def vz_def)

lemma culled_back1: "culled back_quad (0, 3, 2)"
  by (simp add: culled_def back_quad_def face_vertices_def vertex_at_def face_normal_def cross_def vsub_def vx_def vy_def vz_def)

lemma no_face_survives_back: "no_face_survives [(back_quad, 3), (\<lparr>vertices = [], faces = []\<rparr>, 5)]"
  using culled_back0 culled_back1 by (simp add: no_face_survives_def back_quad_def)

theorem empty_drawing_witness:
  "no_face_survives [] \<and> generate_svg 1024 [] = Inr []
   \<and> no_face_survives [(back_quad, 3), (\<lparr>vertices = [], faces = []\<rparr>, 5)]
   \<and> generate_svg 1024 [(back_quad, 3), (\<lparr>vertices = [], faces = []\<rparr>, 5)] = Inr []"
proof -
  have e: "no_face_survives []" by (simp add: no_face_survives_def)
  from empty_drawing [OF e, of 1024] empty_drawing [OF no_face_survives_back, of 1024]
    e no_face_survives_back
  show ?thesis by simp
qed

section \<open>Equal keys\<close>

text \<open>
  C10. Meshes of equal mean Z should keep their scene order, \<^verbatim>\<open>sorted\<close> being a
  stable sort. With a mesh without vertices in the scene they need not: in the scene
  with the keys 0, 0, 9, NaN, 5, 0, 5 the first five meshes form the run; the binary
  search for the last mesh (key 5) first meets the key 9 and goes left of it, and so
  left of mesh 4 (key 5) that stands behind the NaN. The meshes are drawn in the order
  0, 1, 5, 6, 2, 3, 4: the polygons of mesh 6 before those of mesh 4, both of mean 5.
\<close>

theorem tie_order_lost_behind_empty_mesh:
  "generate_svg 100 nan_ties_scene
     = map_sum id (map polygon_of) (generate_svg_trace 100 nan_ties_scene)
   \<and> map_sum id (map mesh_index) (generate_svg_trace 100 nan_ties_scene)
       = Inr [0, 0, 1, 1, 5, 5, 6, 6, 2, 2, 4, 4]
   \<and> mean_z (fst (nan_ties_scene ! 4)) = Some 5
   \<and> mean_z (fst (nan_ties_scene ! 6)) = Some 5"
proof -
  have "py_sorted (\<lambda>iml. mean_z (fst (snd iml))) (enumerate 0 nan_ties_scene)
      = [(0, quad 0, 1), (1, quad 0, 2), (5, quad 0, 6), (6, quad 5, 7), (2, quad 9, 3),
         (3, no_vertices, 4), (4, quad 5, 5)]"
    by (simp add: py_sorted_def list_sort_def count_run_def binarysort_def binary_insert_def
        bisect.simps nan_ties_scene_def enumerate_simps mean_quad mean_no_vertices key_lt_def
        Let_def)
  then have "map_sum id (map mesh_index) (generate_svg_trace 100 nan_ties_scene)
     = Inr [0, 0, 1, 1, 5, 5, 6, 6, 2, 2, 4, 4]"
    unfolding generate_svg_trace_def
    by (simp add: rmt_quad rmt_no_vertices mesh_index_def)
  moreover have "mean_z (fst (nan_ties_scene ! 4)) = Some 5"
    "mean_z (fst (nan_ties_scene ! 6)) = Some 5"
    by (simp_all add: nan_ties_scene_def mean_quad)
  ultimately show ?thesis using generate_svg_forget [of 100 nan_ties_scene] by simp
qed

text \<open>
  Where every mesh of the scene has at least one vertex the sort is the stable one: when
  two meshes have the same mean Z, the polygons of the one that comes first in the scene
  are drawn before the polygons of the other.
\<close>

theorem stable_ties:
  assumes "has_vertices meshes"
    and "generate_svg_trace icon_size meshes = Inr out"
    and "p < length out" and "q < length out"
    and "mean_z (fst (meshes ! mesh_index (out ! p))) = mean_z (fst (meshes ! mesh_index (out ! q)))"
    and "mesh_index (out ! p) < mesh_index (out ! q)"
  shows "generate_svg icon_size meshes = Inr (map polygon_of out) \<and> p < q"
proof -
  have "p < q"
  proof (rule ccontr)
    assume "\<not> p < q"
    then consider "q = p" | "q < p" by linarith
    then show False
    proof cases
      case 1
      with assms(6) show False by simp
    next
      case 2
      from sorted_wrt_nth_less [OF generate_svg_trace_sorted [OF assms(2,1)] 2 assms(3)] assms(5,6)
      show False by (simp add: lex_before_def mesh_index_def)
    qed
  qed
  with generate_svg_of_trace [OF assms(2)] show ?thesis by simp
qed

lemma trace_level_quads: "generate_svg_trace 100 level_quads = Inr level_quads_trace"
  by (simp add: generate_svg_trace_def py_sorted_def level_quads_def level_quads_trace_def
      enum2 mean_quad rmt_quad)

lemma has_vertices_level_quads: "has_vertices level_quads"
  by (simp add: has_vertices_def level_quads_def quad_def)

theorem stable_ties_witness:
  "has_vertices level_quads
   \<and> generate_svg_trace 100 level_quads = Inr level_quads_trace
   \<and> mean_z (fst (level_quads ! mesh_index (level_quads_trace ! 1)))
       = mean_z (fst (level_quads ! mesh_index (level_quads_trace ! 2)))
   \<and> mesh_index (level_quads_trace ! 1) < mesh_index (level_quads_trace ! 2)
   \<and> generate_svg 100 level_quads = Inr (map polygon_of level_quads_trace)
   \<and> (1::nat) < 2"
proof -
  have len: "(1::nat) < length level_quads_trace" "(2::nat) < length level_quads_trace"
    by (simp_all add: level_quads_trace_def)
  have key: "mean_z (fst (level_quads ! mesh_index (level_quads_trace ! 1)))
      = mean_z (fst (level_quads ! mesh_index (level_quads_trace ! 2)))"
    by (simp add: level_quads_trace_def level_quads_def mesh_index_def mean_quad)
  have idx: "mesh_index (level_quads_trace ! 1) < mesh_index (level_quads_trace ! 2)"
    by (simp add: level_quads_trace_def mesh_index_def)
  from stable_ties [OF has_vertices_level_quads trace_level_quads len key idx]
    has_vertices_level_quads trace_level_quads key idx
  show ?thesis by simp
qed

section \<open>Back-face culling\<close>

lemma enum1: "enumerate 0 [a] = [(0, a)]"
  by (simp add: enumerate_simps)

lemma fv_half1: "face_vertices half_quad (0, 3, 2) = Inr ((0, 0, 0), (0, 1, 0), (1, 1, 0))"
  by (simp add: face_vertices_def vertex_at_def half_quad_def)

lemma trace_half_quad: "generate_svg_trace 64 [(half_quad, 7)] = Inr half_quad_trace"
  by (simp add: generate_svg_trace_def py_sorted_def mean_z_def render_mesh_trace_def enum1 enum2
      half_quad_def half_quad_trace_def tag_face_def render_face_def face_vertices_def
      vertex_at_def face_normal_def cross_def vsub_def vx_def vy_def vz_def)

text \<open>
  C2. A face whose normal, the cross product of \<open>v1 - v0\<close> and \<open>v2 - v0\<close>, has a
  negative Z component has no polygon in the drawing: no entry of the drawing comes from
  that face of that mesh.
\<close>

theorem back_face_culled:
  assumes "generate_svg_trace icon_size meshes = Inr out"
    and "i < length meshes" and "k < length (faces (fst (meshes ! i)))"
    and "face_vertices (fst (meshes ! i)) (faces (fst (meshes ! i)) ! k) = Inr t"
    and "vz (face_normal t) < 0"
  shows "generate_svg icon_size meshes = Inr (map polygon_of out) \<and> (i, k) \<notin> origin ` set out"
proof -
  have "(i, k) \<notin> origin ` set out"
  proof
    assume "(i, k) \<in> origin ` set out"
    then obtain e where e: "e \<in> set out" "fst e = i" "fst (snd e) = k"
      by (auto simp: origin_def mesh_index_def face_index_def)
    from generate_svg_trace_entries [OF assms(1) e(1)] e(2,3)
    have "render_face icon_size (snd (meshes ! i)) (fst (meshes ! i))
            (faces (fst (meshes ! i)) ! k) = Inr [snd (snd e)]" by simp
    with assms(4,5) show False by (simp add: render_face_def)
  qed
  with generate_svg_of_trace [OF assms(1)] show ?thesis by simp
qed

theorem back_face_culled_witness:
  "generate_svg_trace 64 [(half_quad, 7)] = Inr half_quad_trace
   \<and> face_vertices (fst ([(half_quad, 7)] ! 0)) (faces (fst ([(half_quad, 7)] ! 0)) ! 1)
       = Inr ((0, 0, 0), (0, 1, 0), (1, 1, 0))
   \<and> vz (face_normal ((0, 0, 0), (0, 1, 0), (1, 1, 0))) < 0
   \<and> generate_svg 64 [(half_quad, 7)] = Inr (map polygon_of half_quad_trace)
   \<and> (0, 1) \<notin> origin ` set half_quad_trace"
proof -
  have i: "(0::nat) < length [(half_quad, 7::int)]" by simp
  have k: "1 < length (faces (fst ([(half_quad, 7::int)] ! 0)))" by (simp add: half_quad_def)
  have fv: "face_vertices (fst ([(half_quad, 7::int)] ! 0)) (faces (fst ([(half_quad, 7)] ! 0)) ! 1)
       = Inr ((0, 0, 0), (0, 1, 0), (1, 1, 0))"
    using fv_half1 by (simp add: half_quad_def)
  have nz: "vz (face_normal ((0, 0, 0), (0, 1, 0), (1, 1, 0))) < 0"
    by (simp add: face_normal_def cross_def vsub_def vx_def vy_def vz_def)
  from back_face_culled [OF trace_half_quad i k fv nz] trace_half_quad fv nz
  show ?thesis by simp
qed

section \<open>The layer number and the order\<close>

lemma trace_level_quads_swapped:
  "generate_svg_trace 100 level_quads_swapped = Inr level_quads_swapped_trace"
  by (simp add: generate_svg_trace_def py_sorted_def level_quads_swapped_def
      level_quads_swapped_trace_def enum2 mean_quad rmt_quad)

text \<open>
  C7 says that the layer number breaks ties between meshes of equal mean Z. It does
  not: the key of the sort is the mean Z alone. Two squares at the same height are drawn
  in scene order, layer 5 before layer 1 in one scene and layer 1 before layer 5 in the
  scene with the layers exchanged.
\<close>

theorem layer_tie_break_counterexample:
  "generate_svg_trace 100 level_quads = Inr level_quads_trace
   \<and> map (layer_of level_quads) level_quads_trace = [5, 5, 1, 1]
   \<and> generate_svg_trace 100 level_quads_swapped = Inr level_quads_swapped_trace
   \<and> map (layer_of level_quads_swapped) level_quads_swapped_trace = [1, 1, 5, 5]
   \<and> mean_z (fst (level_quads ! 0)) = mean_z (fst (level_quads ! 1))"
proof -
  have "map (layer_of level_quads) level_quads_trace = [5, 5, 1, 1]"
    by (simp add: layer_of_def mesh_index_def level_quads_def level_quads_trace_def)
  moreover have "map (layer_of level_quads_swapped) level_quads_swapped_trace = [1, 1, 5, 5]"
    by (simp add: layer_of_def mesh_index_def level_quads_swapped_def level_quads_swapped_trace_def)
  moreover have "mean_z (fst (level_quads ! 0)) = mean_z (fst (level_quads ! 1))"
    by (simp add: level_quads_def)
  ultimately show ?thesis
    using trace_level_quads trace_level_quads_swapped by simp
qed

lemma origin_tag_face:
  "map_sum id (map origin) (tag_face i (fst kf) (render_face icon_size l m (snd kf))) = face_origin i m kf"
  by (auto simp: tag_face_def render_face_def face_origin_def origin_def mesh_index_def face_index_def
      split: sum.splits)

lemma origins_render_mesh_trace:
  "map_sum id (map origin) (render_mesh_trace icon_size (i, m, l)) = mesh_origins (i, m)"
proof -
  have "map (map_sum id (map origin))
          (map (\<lambda>kf. tag_face i (fst kf) (render_face icon_size l m (snd kf))) kfs)
      = map (face_origin i m) kfs" for kfs
    by (induction kfs) (auto simp: origin_tag_face [unfolded id_def])
  then show ?thesis
    unfolding render_mesh_trace_def mesh_origins_def
    by (simp add: collect_map_sum [symmetric] del: map_map)
qed

lemma enumerate_map_fst:
  "map (\<lambda>iml. (fst iml, fst (snd iml))) (enumerate n xs) = enumerate n (map fst xs)"
  by (induction xs arbitrary: n) simp_all

lemma origins_generate_svg_trace:
  "map_sum id (map origin) (generate_svg_trace icon_size meshes)
   = collect (map mesh_origins (py_sorted (\<lambda>im. mean_z (snd im)) (enumerate 0 (map fst meshes))))"
proof -
  let ?S = "py_sorted (\<lambda>iml. mean_z (fst (snd iml))) (enumerate 0 meshes)"
  let ?g = "\<lambda>iml :: nat \<times> mesh \<times> int. (fst iml, fst (snd iml))"
  have 1: "map (map_sum id (map origin)) (map (render_mesh_trace icon_size) xs)
      = map mesh_origins (map ?g xs)" for xs
    by (induction xs) (auto simp: origins_render_mesh_trace [unfolded id_def])
  have 2: "map ?g ?S = py_sorted (\<lambda>im. mean_z (snd im)) (enumerate 0 (map fst meshes))"
    using py_sorted_map [where g = ?g and f = "\<lambda>im. mean_z (snd im)" and xs = "enumerate 0 meshes"]
    by (simp add: enumerate_map_fst)
  have "map_sum id (map origin) (generate_svg_trace icon_size meshes)
      = collect (map (map_sum id (map origin)) (map (render_mesh_trace icon_size) ?S))"
    unfolding generate_svg_trace_def by (rule collect_map_sum [symmetric])
  also have "\<dots> = collect (map mesh_origins (map ?g ?S))"
    by (rule arg_cong [OF 1])
  finally show ?thesis unfolding 2 .
qed

text \<open>
  C7, amended. The order of the drawing does not depend on the layer numbers: two scenes
  with the same meshes in the same order, whatever their layer numbers, give the same
  sequence of (mesh, face) origins, or fail alike. So meshes of equal mean Z are not
  ordered by layer.
\<close>

theorem order_ignores_layers:
  assumes "map fst meshes = map fst meshes'"
  shows "map_sum id (map origin) (generate_svg_trace icon_size meshes)
       = map_sum id (map origin) (generate_svg_trace icon_size meshes')"
  by (simp only: origins_generate_svg_trace assms)

theorem order_ignores_layers_witness:
  "map fst level_quads = map fst level_quads_swapped
   \<and> map_sum id (map origin) (generate_svg_trace 100 level_quads)
       = Inr [(0, 0), (0, 1), (1, 0), (1, 1)]
   \<and> map_sum id (map origin) (generate_svg_trace 100 level_quads_swapped)
       = Inr [(0, 0), (0, 1), (1, 0), (1, 1)]"
proof -
  have m: "map fst level_quads = map fst level_quads_swapped"
    by (simp add: level_quads_def level_quads_swapped_def)
  have "map_sum id (map origin) (generate_svg_trace 100 level_quads)
       = Inr [(0, 0), (0, 1), (1, 0), (1, 1)]"
    by (simp add: trace_level_quads level_quads_trace_def origin_def mesh_index_def face_index_def)
  with order_ignores_layers [OF m, of 100] m show ?thesis by simp
qed

section \<open>The order of the rotations\<close>

lemma rotation_matrix_x: "mat_vec (rotation_matrix a (1, 0, 0)) v = rot_x a v"
  by (simp add: rotation_matrix_def unit_vector_def mat_vec_def rot_x_def dot_def vdiv_def
      vscale_def vx_def vy_def vz_def Let_def algebra_simps)

lemma rotation_matrix_y: "mat_vec (rotation_matrix a (0, 1, 0)) v = rot_y a v"
  by (simp add: rotation_matrix_def unit_vector_def mat_vec_def rot_y_def dot_def vdiv_def
      vscale_def vx_def vy_def vz_def Let_def algebra_simps)

lemma mat_vec_concatenate:
  "mat_vec (concatenate_matrices A B) v = mat_vec A (mat_vec B v)"
proof -
  obtain a11 a12 a13 a21 a22 a23 a31 a32 a33
    where A: "A = ((a11, a12, a13), (a21, a22, a23), (a31, a32, a33))"
    by (metis prod_cases3)
  obtain b11 b12 b13 b21 b22 b23 b31 b32 b33
    where B: "B = ((b11, b12, b13), (b21, b22, b23), (b31, b32, b33))"
    by (metis prod_cases3)
  show ?thesis
    unfolding A B
    by (simp add: concatenate_matrices_def mat_vec_def mat_col_def dot_def vx_def vy_def vz_def
        algebra_simps)
qed

lemma radians_90: "radians 90 = pi / 2"
  by (simp add: radians_def)

text \<open>
  C5 says that the combined rotation applies the X rotation first and the Y rotation
  second. The program multiplies the matrices as \<open>rx ry\<close> and applies the product to
  each vertex, so the Y rotation acts first. With both angles 90 degrees the vertex
  \<open>(1, 0, 0)\<close> goes to \<open>(0, 1, 0)\<close>, while X first and Y second would give
  \<open>(0, 0, -1)\<close>.
\<close>

theorem rotation_order_counterexample:
  "vertices (fst (transform_meshes 90 90 [(unit_x_mesh, 1)] ! 0)) = [(0, 1, 0)]
   \<and> rot_y (radians 90) (rot_x (radians 90) (1, 0, 0)) = (0, 0, - 1)"
proof -
  have "rot_x (pi / 2) (rot_y (pi / 2) (1, 0, 0)) = (0, 1, 0)"
    by (simp add: rot_x_def rot_y_def vx_def vy_def vz_def)
  then have "vertices (fst (transform_meshes 90 90 [(unit_x_mesh, 1)] ! 0)) = [(0, 1, 0)]"
    by (simp add: transform_meshes_def apply_transform_def unit_x_mesh_def Let_def
        mat_vec_concatenate rotation_matrix_x rotation_matrix_y radians_90)
  moreover have "rot_y (radians 90) (rot_x (radians 90) (1, 0, 0)) = (0, 0, - 1)"
    by (simp add: radians_90 rot_x_def rot_y_def vx_def vy_def vz_def)
  ultimately show ?thesis by blast
qed

text \<open>
  C5, amended. \<^verbatim>\<open>transform_meshes\<close> applies to every vertex of every mesh one and the
  same rotation: the Y rotation by the left angle first, the X rotation by the forward
  angle second. Faces and layer numbers are unchanged.
\<close>

theorem transform_is_x_after_y:
  "transform_meshes tilt_forward tilt_left meshes =
     map (\<lambda>ml. (\<lparr>vertices = map (\<lambda>v. rot_x (radians tilt_forward) (rot_y (radians tilt_left) v))
                              (vertices (fst ml)),
                  faces = faces (fst ml)\<rparr>, snd ml)) meshes"
  by (simp add: transform_meshes_def apply_transform_def Let_def case_prod_unfold
      mat_vec_concatenate rotation_matrix_x rotation_matrix_y)

section \<open>Normalisation\<close>

lemma vec_simps: "vx (a, b, c) = a" "vy (a, b, c) = b" "vz (a, b, c) = c"
  by (simp_all add: vx_def vy_def vz_def)



lemma compute_bounds_vertices:
  assumes "all_vertices meshes \<noteq> []"
  shows "compute_bounds meshes =
     Inr ((Min (vx ` set (all_vertices meshes)), Min (vy ` set (all_vertices meshes)),
           Min (vz ` set (all_vertices meshes))),
          (Max (vx ` set (all_vertices meshes)), Max (vy ` set (all_vertices meshes)),
           Max (vz ` set (all_vertices meshes))))"
proof -
  from assms have "meshes \<noteq> []" by (auto simp: all_vertices_def)
  with assms show ?thesis by (simp add: compute_bounds_def Let_def)
qed

lemma planar_extent_nonneg:
  assumes "compute_bounds meshes = Inr b"
  shows "0 \<le> planar_extent b"
proof (cases "meshes = []")
  case True
  with assms show ?thesis
    by (auto simp: compute_bounds_def planar_extent_def vsub_def vx_def vy_def)
next
  case False
  with assms have ne: "all_vertices meshes \<noteq> []"
    by (auto simp: compute_bounds_def Let_def split: if_splits)
  then have "Min (vx ` set (all_vertices meshes)) \<le> Max (vx ` set (all_vertices meshes))"
    by (intro Max_ge Min_in) simp_all
  with assms ne show ?thesis
    by (auto simp: compute_bounds_vertices planar_extent_def vsub_def vec_simps Let_def
        le_max_iff_disj)
qed





lemma bounds_two_quads: "compute_bounds two_quads = Inr ((0, 0, - 10), (1, 1, 10))"
  by (simp add: compute_bounds_def two_quads_def all_vertices_def quad_def vec_simps Let_def)

lemma bounds_point: "compute_bounds point_scene = Inr ((1, 0, 0), (1, 0, 0))"
  by (simp add: compute_bounds_def point_scene_def all_vertices_def unit_x_mesh_def vec_simps Let_def)

lemma extent_unit: "planar_extent ((0, 0, z), (1, 1, z')) = 1"
  by (simp add: planar_extent_def vsub_def vec_simps Let_def)






text \<open>
  C9. When the planar extent of the bounding box is strictly positive, the division that
  computes the scale is a division by a non-zero number (the scale times the extent is
  \<open>icon_size * 0.8\<close>) and normalisation returns a scene. The extent is never
  negative, and with the extent zero nothing guards the division: the outcome is the
  non-finite one.
\<close>

theorem scale_division_defined:
  assumes "compute_bounds meshes = Inr b"
  shows "0 \<le> planar_extent b
     \<and> (0 < planar_extent b \<longrightarrow>
          (\<exists>meshes'. normalize_meshes icon_size meshes = Inr meshes')
          \<and> real_of_int icon_size * (8 / 10) / planar_extent b * planar_extent b
              = real_of_int icon_size * (8 / 10))
     \<and> (planar_extent b = 0 \<longrightarrow> normalize_meshes icon_size meshes = Inl NonFinite)"
proof -
  obtain bmin bmax where b: "b = (bmin, bmax)" by (cases b)
  have "normalize_meshes icon_size meshes = Inl NonFinite" if "planar_extent b = 0"
    using assms that unfolding b by (simp add: normalize_meshes_def)
  moreover have "\<exists>meshes'. normalize_meshes icon_size meshes = Inr meshes'" if "0 < planar_extent b"
    using assms that unfolding b by (simp add: normalize_meshes_def Let_def)
  moreover have "real_of_int icon_size * (8 / 10) / planar_extent b * planar_extent b
              = real_of_int icon_size * (8 / 10)" if "0 < planar_extent b"
    using that by simp
  ultimately show ?thesis using planar_extent_nonneg [OF assms] by blast
qed

theorem scale_division_defined_witness:
  "compute_bounds two_quads = Inr ((0, 0, - 10), (1, 1, 10))
   \<and> 0 < planar_extent ((0, 0, - 10), (1, 1, 10))
   \<and> (\<exists>meshes'. normalize_meshes 100 two_quads = Inr meshes')
   \<and> compute_bounds point_scene = Inr ((1, 0, 0), (1, 0, 0))
   \<and> planar_extent ((1, 0, 0), (1, 0, 0)) = 0
   \<and> normalize_meshes 100 point_scene = Inl NonFinite"
proof -
  have z: "planar_extent ((1, 0, 0), (1, 0, 0)) = 0"
    by (simp add: planar_extent_def vsub_def vec_simps Let_def)
  have p: "0 < planar_extent ((0, 0, - 10), (1, 1, 10))"
    by (simp add: extent_unit)
  from scale_division_defined [OF bounds_two_quads, of 100]
    scale_division_defined [OF bounds_point, of 100] z p bounds_two_quads bounds_point
  show ?thesis by simp
qed

end
